theory Spec2Isabelle
  imports Complex_Main
begin

section \<open>Numbers, arrays and exceptions\<close>

text \<open>
  The module \<open>paircorrelation2d.py\<close> has one function, \<open>pcf2d\<close>. Coordinates, bin
  edges, areas and distances are Python/numpy floats; they are modelled as reals (no
  rounding, no overflow). The entries of the numpy arrays that \<open>pcf2d\<close> divides are
  modelled with the special values of numpy's arithmetic written out, since numpy divides
  by zero without raising: \<open>0/0\<close> is \<open>nan\<close>, \<open>x/0\<close> is an infinity. The sign of a zero
  is not modelled.
\<close>

type_synonym point = "real \<times> real"

datatype npfloat = Fin real | PInf | NInf | NaN

fun np_add :: "npfloat \<Rightarrow> npfloat \<Rightarrow> npfloat" where
  "np_add NaN y = NaN"
| "np_add x NaN = NaN"
| "np_add (Fin a) (Fin b) = Fin (a + b)"
| "np_add PInf NInf = NaN"
| "np_add NInf PInf = NaN"
| "np_add PInf y = PInf"
| "np_add x PInf = PInf"
| "np_add NInf y = NInf"
| "np_add x NInf = NInf"

fun np_mul :: "npfloat \<Rightarrow> npfloat \<Rightarrow> npfloat" where
  "np_mul NaN y = NaN"
| "np_mul x NaN = NaN"
| "np_mul (Fin a) (Fin b) = Fin (a * b)"
| "np_mul (Fin a) PInf = (if 0 < a then PInf else if a < 0 then NInf else NaN)"
| "np_mul (Fin a) NInf = (if 0 < a then NInf else if a < 0 then PInf else NaN)"
| "np_mul PInf (Fin b) = (if 0 < b then PInf else if b < 0 then NInf else NaN)"
| "np_mul NInf (Fin b) = (if 0 < b then NInf else if b < 0 then PInf else NaN)"
| "np_mul PInf PInf = PInf"
| "np_mul NInf NInf = PInf"
| "np_mul PInf NInf = NInf"
| "np_mul NInf PInf = NInf"

fun np_div :: "npfloat \<Rightarrow> npfloat \<Rightarrow> npfloat" where
  "np_div NaN y = NaN"
| "np_div x NaN = NaN"
| "np_div (Fin a) (Fin b) =
     (if b \<noteq> 0 then Fin (a / b)
      else if 0 < a then PInf else if a < 0 then NInf else NaN)"
| "np_div (Fin a) y = Fin 0"
| "np_div PInf (Fin b) = (if 0 \<le> b then PInf else NInf)"
| "np_div NInf (Fin b) = (if 0 \<le> b then NInf else PInf)"
| "np_div x y = NaN"

text \<open>Comparison of an array entry with a (finite) bin edge; \<open>nan\<close> compares false.\<close>

fun edge_le :: "real \<Rightarrow> npfloat \<Rightarrow> bool" where
  "edge_le e (Fin x) = (e \<le> x)"
| "edge_le e PInf = True"
| "edge_le e NInf = False"
| "edge_le e NaN = False"

fun lt_edge :: "npfloat \<Rightarrow> real \<Rightarrow> bool" where
  "lt_edge (Fin x) e = (x < e)"
| "lt_edge PInf e = False"
| "lt_edge NInf e = True"
| "lt_edge NaN e = False"

fun le_edge :: "npfloat \<Rightarrow> real \<Rightarrow> bool" where
  "le_edge (Fin x) e = (x \<le> e)"
| "le_edge PInf e = False"
| "le_edge NInf e = True"
| "le_edge NaN e = False"

text \<open>
  The ways a call of \<open>pcf2d\<close> ends without a result tuple. \<open>InvalidBorder\<close> is the early
  \<open>return\<close> of line 126: the message is printed and the caller receives \<open>None\<close>. The
  others are exceptions: \<open>AttributeError\<close> from \<open>.geoms\<close> on a \<open>Point\<close>,
  \<open>ZeroDivisionError\<close> from the division of two Python numbers at line 140,
  \<open>ValueError\<close> from \<open>np.zeros\<close> of a negative length and from \<open>np.histogram\<close>,
  \<open>IndexError\<close> from indexing an array out of its range.
\<close>

datatype error = InvalidBorder | AttributeError | ZeroDivisionError | ValueError | IndexError

definition py_index :: "nat \<Rightarrow> int \<Rightarrow> error + nat" where
  \<comment> \<open>the position that index \<open>jj\<close> names in a sequence of length \<open>n\<close>: a negative
      index counts from the end\<close>
  "py_index n jj =
     (if 0 \<le> jj \<and> jj < int n then Inr (nat jj)
      else if - int n \<le> jj \<and> jj < 0 then Inr (nat (jj + int n))
      else Inl IndexError)"

section \<open>The geometry library\<close>

text \<open>
  \<open>pcf2d\<close> builds its geometry with shapely, which is not part of the repository. The
  area of interest is kept as the constructor call that makes it; what shapely answers
  about it enters the model as a record of functions, one per expression of the source:
  \<^item> \<open>is_valid\<close>: \<open>area_of_interest.is_valid\<close>;
  \<^item> \<open>area\<close>: \<open>area_of_interest.area\<close>;
  \<^item> \<open>points_inside\<close>: \<open>area_of_interest.intersection(MultiPoint(array_positions))\<close>,
    a single \<open>Point\<close>, the empty \<open>Point\<close> when no point lies inside, or a
    multi-part geometry;
  \<^item> \<open>boundary_distance\<close>: \<open>p.distance(area_of_interest.boundary)\<close>;
  \<^item> \<open>ring_area_poly r0 r1\<close>: the area of
    \<open>Point([0,0]).buffer(r1).difference(Point([0,0]).buffer(r0))\<close>;
  \<^item> \<open>clipped_ring_area d r0 r1 p\<close>: the area of the intersection of \<open>d\<close> with that ring
    translated to \<open>p\<close>.
\<close>

datatype domain = Polygon "point list" "point list list option" | ConvexHull "point list"

datatype geometry = Point point | PointEmpty | MultiPoint "point list"

record shapely =
  is_valid :: "domain \<Rightarrow> bool"
  area :: "domain \<Rightarrow> real"
  points_inside :: "domain \<Rightarrow> point list \<Rightarrow> geometry"
  boundary_distance :: "domain \<Rightarrow> point \<Rightarrow> real"
  ring_area_poly :: "real \<Rightarrow> real \<Rightarrow> real"
  clipped_ring_area :: "domain \<Rightarrow> real \<Rightarrow> real \<Rightarrow> point \<Rightarrow> real"

section \<open>numpy's histogram\<close>

text \<open>
  \<open>np.histogram(a, bins=edges)[0]\<close> for an array of edges: \<open>ValueError\<close> when an edge is
  greater than its successor; otherwise bin \<open>j\<close> counts the entries in
  \<open>[edges[j], edges[j+1])\<close>, and the last bin also counts the entries equal to the last
  edge.
\<close>

definition in_bin :: "real list \<Rightarrow> nat \<Rightarrow> npfloat \<Rightarrow> bool" where
  "in_bin edges j x =
     (edge_le (edges ! j) x \<and>
      (if Suc (Suc j) = length edges then le_edge x (edges ! Suc j)
       else lt_edge x (edges ! Suc j)))"

definition np_histogram :: "npfloat list \<Rightarrow> real list \<Rightarrow> error + nat list" where
  "np_histogram a edges =
     (if \<not> sorted edges then Inl ValueError
      else Inr (map (\<lambda>j. length (filter (in_bin edges j) a)) [0..<length edges - 1]))"

section \<open>The stages of pcf2d\<close>

text \<open>Lines 115 to 133: the area of interest and the points inside it.\<close>

definition domain_stage ::
  "shapely \<Rightarrow> point list \<Rightarrow> point list option \<Rightarrow> point list list option
     \<Rightarrow> error + (domain \<times> point list)" where
  "domain_stage K array_positions coord_border coord_holes =
     (case coord_border of
        None \<Rightarrow> Inr (ConvexHull array_positions, array_positions)
      | Some border \<Rightarrow>
          (let area_of_interest = Polygon border coord_holes in
           if \<not> is_valid K area_of_interest then Inl InvalidBorder
           else (case points_inside K area_of_interest array_positions of
                   Point p \<Rightarrow> Inl AttributeError
                 | PointEmpty \<Rightarrow> Inl AttributeError
                 | MultiPoint ps \<Rightarrow> Inr (area_of_interest, ps))))"

text \<open>Line 140: a Python int divided by a Python float.\<close>

definition density :: "nat \<Rightarrow> real \<Rightarrow> error + real" where
  "density nb_part a = (if a = 0 then Inl ZeroDivisionError else Inr (real nb_part / a))"

text \<open>Lines 143 to 156: \<open>ring_area\<close> and \<open>ring_area_approx\<close>.\<close>

definition ring_stage :: "shapely \<Rightarrow> real list \<Rightarrow> error + (real list \<times> real list)" where
  "ring_stage K bins_distances =
     (if bins_distances = [] then Inl ValueError
      else Inr
        (map (\<lambda>jj. pi * ((bins_distances ! (jj + 1))\<^sup>2 - (bins_distances ! jj)\<^sup>2))
           [0..<length bins_distances - 1],
         map (\<lambda>jj. ring_area_poly K (bins_distances ! jj) (bins_distances ! (jj + 1)))
           [0..<length bins_distances - 1]))"

text \<open>Lines 190 and 193: the factor of bin \<open>jj\<close> for the point \<open>p\<close>.\<close>

definition factor :: "shapely \<Rightarrow> domain \<Rightarrow> real list \<Rightarrow> real list \<Rightarrow> point \<Rightarrow> nat \<Rightarrow> npfloat" where
  "factor K area_of_interest bins_distances ring_area_approx p jj =
     np_div (Fin (clipped_ring_area K area_of_interest
                    (bins_distances ! jj) (bins_distances ! (jj + 1)) p))
            (Fin (ring_area_approx ! jj))"

text \<open>The inner loops of lines 189 and 192: one assignment per index of the list.\<close>

fun assign_factors :: "(nat \<Rightarrow> npfloat) \<Rightarrow> int list \<Rightarrow> npfloat list \<Rightarrow> error + npfloat list" where
  "assign_factors f [] row = Inr row"
| "assign_factors f (jj # jjs) row =
     (case py_index (length row) jj of
        Inl e \<Rightarrow> Inl e
      | Inr j \<Rightarrow> assign_factors f jjs (row[j := f j]))"

definition normalisation_row ::
  "shapely \<Rightarrow> domain \<Rightarrow> real list \<Rightarrow> real list \<Rightarrow> point \<Rightarrow> real \<Rightarrow> error + npfloat list" where
  "normalisation_row K area_of_interest bins_distances ring_area_approx p d =
     (let ones = replicate (length bins_distances - 1) (Fin 1);
          f = factor K area_of_interest bins_distances ring_area_approx p
      in if d \<le> bins_distances ! 0
         then assign_factors f (map int [0..<length bins_distances - 1]) ones
         else assign_factors f
                (map (\<lambda>k. int k - 1)
                   (filter (\<lambda>k. bins_distances ! k > d) [0..<length bins_distances]))
                ones)"

text \<open>Lines 185 to 193, the accurate method: the loop over the points.\<close>

fun accurate_method ::
  "shapely \<Rightarrow> domain \<Rightarrow> real list \<Rightarrow> real list \<Rightarrow> point list
     \<Rightarrow> error + (real list \<times> npfloat list list)" where
  "accurate_method K area_of_interest bins_distances ring_area_approx [] = Inr ([], [])"
| "accurate_method K area_of_interest bins_distances ring_area_approx (p # ps) =
     (let d = boundary_distance K area_of_interest p in
      case normalisation_row K area_of_interest bins_distances ring_area_approx p d of
        Inl e \<Rightarrow> Inl e
      | Inr row \<Rightarrow>
          (case accurate_method K area_of_interest bins_distances ring_area_approx ps of
             Inl e \<Rightarrow> Inl e
           | Inr (ds, rows) \<Rightarrow> Inr (d # ds, row # rows)))"

text \<open>
  Lines 172 to 181, the fast method: the new \<open>array_positions\<close>, \<open>dist_to_border\<close> and
  \<open>normalisation\<close>. Without \<open>full_output\<close> the last two keep their old sizes.
\<close>

definition fast_method ::
  "shapely \<Rightarrow> domain \<Rightarrow> real list \<Rightarrow> point list \<Rightarrow> bool
     \<Rightarrow> point list \<times> real list \<times> npfloat list list" where
  "fast_method K area_of_interest bins_distances ps full_output =
     (let nb_part = length ps;
          dist_to_border = map (boundary_distance K area_of_interest) ps;
          far_enough = filter (\<lambda>ii. dist_to_border ! ii > last bins_distances) [0..<nb_part];
          array_positions = map (\<lambda>ii. ps ! ii) far_enough
      in if full_output
         then (array_positions, map (\<lambda>ii. dist_to_border ! ii) far_enough,
               replicate (length array_positions)
                 (replicate (length bins_distances - 1) (Fin 1)))
         else (array_positions, dist_to_border,
               replicate nb_part (replicate (length bins_distances - 1) (Fin 1))))"

text \<open>
  Lines 170 to 193: the branch on \<open>fast_method\<close>. It gives \<open>array_positions\<close>,
  \<open>dist_to_border\<close> and \<open>normalisation\<close>; the accurate method keeps every point.
\<close>

definition normalisation_stage ::
  "shapely \<Rightarrow> domain \<Rightarrow> real list \<Rightarrow> real list \<Rightarrow> point list \<Rightarrow> bool \<Rightarrow> bool
     \<Rightarrow> error + (point list \<times> real list \<times> npfloat list list)" where
  "normalisation_stage K area_of_interest bins_distances ring_area_approx ps fast full_output =
     (if fast then Inr (fast_method K area_of_interest bins_distances ps full_output)
      else (case accurate_method K area_of_interest bins_distances ring_area_approx ps of
              Inl e \<Rightarrow> Inl e
            | Inr (ds, rows) \<Rightarrow> Inr (ps, ds, rows)))"

text \<open>Lines 205 and 206: the distances from point \<open>ii\<close>, its own replaced by \<open>np.inf\<close>.\<close>

definition dist_to_loc :: "point list \<Rightarrow> nat \<Rightarrow> npfloat list" where
  "dist_to_loc array_positions ii =
     (map (\<lambda>q. Fin (sqrt ((fst q - fst (array_positions ! ii))\<^sup>2
                          + (snd q - snd (array_positions ! ii))\<^sup>2)))
        array_positions)[ii := PInf]"

text \<open>Lines 200 to 209: the loop that accumulates \<open>g_of_r\<close> and \<open>g_of_r_normalized\<close>.\<close>

fun accumulate ::
  "real list \<Rightarrow> real list \<Rightarrow> npfloat list list \<Rightarrow> point list \<Rightarrow> nat list
     \<Rightarrow> npfloat list \<times> npfloat list \<Rightarrow> error + (npfloat list \<times> npfloat list)" where
  "accumulate bins_distances ring_area normalisation array_positions [] acc = Inr acc"
| "accumulate bins_distances ring_area normalisation array_positions (ii # iis) acc =
     (case np_histogram (dist_to_loc array_positions ii) bins_distances of
        Inl e \<Rightarrow> Inl e
      | Inr h \<Rightarrow>
          accumulate bins_distances ring_area normalisation array_positions iis
            (map2 np_add (fst acc) (map (\<lambda>c. Fin (real c)) h),
             map2 np_add (snd acc)
               (map2 np_div (map (\<lambda>c. Fin (real c)) h)
                  (map2 np_mul (map Fin ring_area) (normalisation ! ii)))))"

section \<open>pcf2d\<close>

text \<open>
  The local variables of \<open>pcf2d\<close> when it reaches line 233. The flags \<open>show_timing\<close> and
  \<open>plot\<close> only print and draw; they are left out.
\<close>

record locals =
  g_of_r_normalized :: "npfloat list"
  radii :: "real list"
  g_of_r :: "npfloat list"
  array_positions :: "point list"
  dist_to_border :: "real list"
  normalisation :: "npfloat list list"
  densite :: real

definition pcf2d_locals ::
  "shapely \<Rightarrow> point list \<Rightarrow> real list \<Rightarrow> point list option \<Rightarrow> point list list option
     \<Rightarrow> bool \<Rightarrow> bool \<Rightarrow> error + locals" where
  "pcf2d_locals K positions bins_distances coord_border coord_holes fast full_output =
     (case domain_stage K positions coord_border coord_holes of
        Inl e \<Rightarrow> Inl e
      | Inr (area_of_interest, ps) \<Rightarrow>
     (case density (length ps) (area K area_of_interest) of
        Inl e \<Rightarrow> Inl e
      | Inr dens \<Rightarrow>
     (case ring_stage K bins_distances of
        Inl e \<Rightarrow> Inl e
      | Inr (ring_area, ring_area_approx) \<Rightarrow>
     (case normalisation_stage K area_of_interest bins_distances ring_area_approx ps
             fast full_output of
        Inl e \<Rightarrow> Inl e
      | Inr (kept, ds, rows) \<Rightarrow>
     (case accumulate bins_distances ring_area rows kept [0..<length kept]
             (replicate (length bins_distances - 1) (Fin 0),
              replicate (length bins_distances - 1) (Fin 0)) of
        Inl e \<Rightarrow> Inl e
      | Inr (raw, nrm) \<Rightarrow>
          Inr \<lparr> g_of_r_normalized =
                  map (\<lambda>h. np_div h (Fin (real (length kept) * dens))) nrm,
                radii = map2 (\<lambda>a b. (a + b) / 2) (tl bins_distances) (butlast bins_distances),
                g_of_r = map (\<lambda>h. np_div h (Fin (real (length kept)))) raw,
                array_positions = kept,
                dist_to_border = ds,
                normalisation = rows,
                densite = dens \<rparr>)))))"

datatype results =
    Minimal "npfloat list" "real list"
  | Full "npfloat list" "real list" "npfloat list" "point list" "real list"
      "npfloat list list" real

definition pcf2d ::
  "shapely \<Rightarrow> point list \<Rightarrow> real list \<Rightarrow> point list option \<Rightarrow> point list list option
     \<Rightarrow> bool \<Rightarrow> bool \<Rightarrow> error + results" where
  "pcf2d K positions bins_distances coord_border coord_holes fast full_output =
     (case pcf2d_locals K positions bins_distances coord_border coord_holes fast full_output of
        Inl e \<Rightarrow> Inl e
      | Inr s \<Rightarrow>
          if full_output
          then Inr (Full (g_of_r_normalized s) (radii s) (g_of_r s) (array_positions s)
                      (dist_to_border s) (normalisation s) (densite s))
          else Inr (Minimal (g_of_r_normalized s) (radii s)))"

section \<open>A square of side 4\<close>

text \<open>
  The answers of the geometry library when the area of interest is the square with
  corners \<open>[[0,0],[0,4],[4,4],[4,0]]\<close>, given as the border or as the convex hull of
  these four points, as far as they are used below; the bow tie of the docstring is not
  valid, and the convex hull of no point has area zero. The input points are distinct and
  listed by increasing abscissa; with none of them in the square the intersection is the
  empty \<open>Point\<close>. A disk is buffered into a regular 64-gon, and a buffer of radius zero
  or less is empty. A ring that fits in the square is kept whole; a ring centred on the
  left side that stays away from the three other sides is cut in half, the 64-gon being
  symmetric; a ring of inner radius 8 or more misses the square, whose diagonal is
  shorter. No other intersection is answered.
\<close>

definition square4 :: domain where
  "square4 = Polygon [(0, 0), (0, 4), (4, 4), (4, 0)] None"

definition bow_tie :: domain where
  "bow_tie = Polygon [(0, 0), (0, 1), (1, 0), (1, 1)] None"

definition in_square4 :: "point \<Rightarrow> bool" where
  "in_square4 p = (0 \<le> fst p \<and> fst p \<le> 4 \<and> 0 \<le> snd p \<and> snd p \<le> 4)"

definition side_distance4 :: "point \<Rightarrow> real" where
  "side_distance4 p = min (min (fst p) (4 - fst p)) (min (snd p) (4 - snd p))"

definition ring64 :: "real \<Rightarrow> real \<Rightarrow> real" where
  "ring64 r0 r1 = 32 * sin (pi / 32) * max 0 ((max 0 r1)\<^sup>2 - (max 0 r0)\<^sup>2)"

definition square_kernel :: shapely where
  "square_kernel =
     \<lparr> is_valid = (\<lambda>d. d = square4),
       area = (\<lambda>d. if d = ConvexHull [] then 0 else 16),
       points_inside =
         (\<lambda>d ps. case filter in_square4 ps of
                    [] \<Rightarrow> PointEmpty | [p] \<Rightarrow> Point p | qs \<Rightarrow> MultiPoint qs),
       boundary_distance = (\<lambda>d p. side_distance4 p),
       ring_area_poly = ring64,
       clipped_ring_area =
         (\<lambda>d r0 r1 p.
            if r1 \<le> side_distance4 p then ring64 r0 r1
            else if fst p = 0 \<and> r1 \<le> min (snd p) (4 - snd p) then ring64 r0 r1 / 2
            else if 8 \<le> r0 then 0
            else undefined) \<rparr>"

section \<open>Properties\<close>

subsection \<open>The stages, one by one\<close>

text \<open>
  The inner loops never leave the range of the row: in the second branch every index
  \<open>k\<close> that \<open>np.where\<close> finds is at least 1, since \<open>bins_distances[0] < d\<close> there,
  so no index \<open>-1\<close> reaches the assignment.
\<close>

lemma assign_factors_valid:
  "\<forall>jj \<in> set jjs. 0 \<le> jj \<and> jj < int (length row) \<Longrightarrow>
   \<exists>row'. assign_factors f jjs row = Inr row' \<and> length row' = length row \<and>
     (\<forall>j < length row. row' ! j = (if int j \<in> set jjs then f j else row ! j))"
proof (induction jjs arbitrary: row)
  case Nil
  then show ?case by simp
next
  case (Cons jj jjs)
  have jj: "0 \<le> jj" "jj < int (length row)" using Cons.prems by auto
  have ix: "py_index (length row) jj = Inr (nat jj)" using jj by (simp add: py_index_def)
  have "\<forall>k \<in> set jjs. 0 \<le> k \<and> k < int (length (row[nat jj := f (nat jj)]))"
    using Cons.prems by simp
  from Cons.IH [OF this] obtain row' where
    r: "assign_factors f jjs (row[nat jj := f (nat jj)]) = Inr row'"
       "length row' = length row"
       "\<forall>j < length row. row' ! j =
          (if int j \<in> set jjs then f j else (row[nat jj := f (nat jj)]) ! j)"
    by auto
  have "\<forall>j < length row. row' ! j = (if int j \<in> set (jj # jjs) then f j else row ! j)"
  proof (intro allI impI)
    fix j assume j: "j < length row"
    show "row' ! j = (if int j \<in> set (jj # jjs) then f j else row ! j)"
    proof (cases "int j = jj")
      case True
      then have "nat jj = j" by simp
      then show ?thesis using r(3) j True by (simp del: of_nat_eq_iff)
    next
      case False
      then have "nat jj \<noteq> j" using jj by auto
      then show ?thesis using r(3) j False by simp
    qed
  qed
  then show ?case using ix r by simp
qed

lemma normalisation_row_total:
  assumes "bins \<noteq> []"
  shows "\<exists>row. normalisation_row K aoi bins approx p d = Inr row \<and>
           length row = length bins - 1 \<and>
           (\<forall>j < length bins - 1. row ! j =
              (if d \<le> bins ! 0 \<or> bins ! (j + 1) > d then factor K aoi bins approx p j else Fin 1))"
proof (cases "d \<le> bins ! 0")
  case True
  let ?ones = "replicate (length bins - 1) (Fin 1)"
  let ?jjs = "map int [0..<length bins - 1]"
  have v: "\<forall>jj \<in> set ?jjs. 0 \<le> jj \<and> jj < int (length ?ones)" by auto
  from assign_factors_valid [OF v, of "factor K aoi bins approx p"] obtain row where
    r: "assign_factors (factor K aoi bins approx p) ?jjs ?ones = Inr row"
       "length row = length ?ones"
       "\<forall>j < length ?ones. row ! j =
          (if int j \<in> set ?jjs then factor K aoi bins approx p j else ?ones ! j)"
    by blast
  have "\<forall>j < length bins - 1. row ! j = factor K aoi bins approx p j"
    using r(3) by auto
  then show ?thesis using True r(1,2) by (simp add: normalisation_row_def)
next
  case False
  let ?ones = "replicate (length bins - 1) (Fin 1)"
  let ?ks = "filter (\<lambda>k. bins ! k > d) [0..<length bins]"
  let ?jjs = "map (\<lambda>k. int k - 1) ?ks"
  have k0: "k \<noteq> 0" if "k \<in> set ?ks" for k
    using that False by (cases "k = 0") auto
  have v: "\<forall>jj \<in> set ?jjs. 0 \<le> jj \<and> jj < int (length ?ones)"
  proof
    fix jj assume "jj \<in> set ?jjs"
    then obtain k where k: "k \<in> set ?ks" "jj = int k - 1" by auto
    have "k \<noteq> 0" using k0 [OF k(1)] .
    moreover have "k < length bins" using k(1) by simp
    ultimately show "0 \<le> jj \<and> jj < int (length ?ones)" using k(2) by auto
  qed
  from assign_factors_valid [OF v, of "factor K aoi bins approx p"] obtain row where
    r: "assign_factors (factor K aoi bins approx p) ?jjs ?ones = Inr row"
       "length row = length ?ones"
       "\<forall>j < length ?ones. row ! j =
          (if int j \<in> set ?jjs then factor K aoi bins approx p j else ?ones ! j)"
    by blast
  have mem: "(int j \<in> set ?jjs) = (bins ! (j + 1) > d)" if j: "j < length bins - 1" for j
  proof
    assume "int j \<in> set ?jjs"
    then obtain k where k: "k \<in> set ?ks" "int j = int k - 1" by auto
    have "k \<noteq> 0" using k0 [OF k(1)] .
    then have "k = j + 1" using k(2) by linarith
    then show "bins ! (j + 1) > d" using k(1) by simp
  next
    assume "bins ! (j + 1) > d"
    then have "j + 1 \<in> set ?ks" using j by simp
    then have "int (j + 1) - 1 \<in> (\<lambda>k. int k - 1) ` set ?ks" by (rule imageI)
    then show "int j \<in> set ?jjs" by simp
  qed
  have "\<forall>j < length bins - 1. row ! j =
          (if bins ! (j + 1) > d then factor K aoi bins approx p j else Fin 1)"
    using r(3) mem by simp
  then show ?thesis using False r(1,2) by (simp add: normalisation_row_def)
qed

lemma accurate_method_total:
  assumes "bins \<noteq> []"
  shows "\<exists>rows. accurate_method K aoi bins approx ps = Inr (map (boundary_distance K aoi) ps, rows) \<and>
           length rows = length ps \<and>
           (\<forall>i < length ps. length (rows ! i) = length bins - 1 \<and>
              (\<forall>j < length bins - 1. rows ! i ! j =
                (if boundary_distance K aoi (ps ! i) \<le> bins ! 0
                    \<or> bins ! (j + 1) > boundary_distance K aoi (ps ! i)
                 then factor K aoi bins approx (ps ! i) j else Fin 1)))"
proof (induction ps)
  case Nil
  then show ?case by simp
next
  case (Cons p ps)
  from normalisation_row_total [OF assms, of K aoi approx p "boundary_distance K aoi p"]
  obtain row where row:
    "normalisation_row K aoi bins approx p (boundary_distance K aoi p) = Inr row"
    "length row = length bins - 1"
    "\<forall>j < length bins - 1. row ! j =
       (if boundary_distance K aoi p \<le> bins ! 0 \<or> bins ! (j + 1) > boundary_distance K aoi p
        then factor K aoi bins approx p j else Fin 1)"
    by blast
  from Cons.IH obtain rows where rows:
    "accurate_method K aoi bins approx ps = Inr (map (boundary_distance K aoi) ps, rows)"
    "length rows = length ps"
    "\<forall>i < length ps. length (rows ! i) = length bins - 1 \<and>
       (\<forall>j < length bins - 1. rows ! i ! j =
          (if boundary_distance K aoi (ps ! i) \<le> bins ! 0
              \<or> bins ! (j + 1) > boundary_distance K aoi (ps ! i)
           then factor K aoi bins approx (ps ! i) j else Fin 1))"
    by blast
  have "\<forall>i < length (p # ps). length ((row # rows) ! i) = length bins - 1 \<and>
       (\<forall>j < length bins - 1. (row # rows) ! i ! j =
          (if boundary_distance K aoi ((p # ps) ! i) \<le> bins ! 0
              \<or> bins ! (j + 1) > boundary_distance K aoi ((p # ps) ! i)
           then factor K aoi bins approx ((p # ps) ! i) j else Fin 1))"
  proof (intro allI impI)
    fix i assume "i < length (p # ps)"
    then show "length ((row # rows) ! i) = length bins - 1 \<and>
       (\<forall>j < length bins - 1. (row # rows) ! i ! j =
          (if boundary_distance K aoi ((p # ps) ! i) \<le> bins ! 0
              \<or> bins ! (j + 1) > boundary_distance K aoi ((p # ps) ! i)
           then factor K aoi bins approx ((p # ps) ! i) j else Fin 1))"
      using row(2,3) rows(3) by (cases i) simp_all
  qed
  then show ?case using row(1) rows(1,2) by (simp add: Let_def)
qed

lemma far_enough_filter:
  "map (\<lambda>ii. ps ! ii) (filter (\<lambda>ii. map f ps ! ii > c) [0..<length ps]) = filter (\<lambda>p. f p > c) ps"
proof -
  have "filter (\<lambda>p. f p > c) ps = filter (\<lambda>p. f p > c) (map (\<lambda>ii. ps ! ii) [0..<length ps])"
    by (simp add: map_nth)
  also have "\<dots> = map (\<lambda>ii. ps ! ii) (filter (\<lambda>ii. f (ps ! ii) > c) [0..<length ps])"
    by (simp add: filter_map comp_def)
  also have "filter (\<lambda>ii. f (ps ! ii) > c) [0..<length ps] = filter (\<lambda>ii. map f ps ! ii > c) [0..<length ps]"
    by (rule filter_cong) simp_all
  finally show ?thesis by simp
qed

lemma far_enough_distances:
  "map (\<lambda>ii. map f ps ! ii) (filter (\<lambda>ii. map f ps ! ii > c) [0..<length ps]) = map f (filter (\<lambda>p. f p > c) ps)"
proof -
  have "map (\<lambda>ii. map f ps ! ii) (filter (\<lambda>ii. map f ps ! ii > c) [0..<length ps])
      = map (\<lambda>ii. f (ps ! ii)) (filter (\<lambda>ii. map f ps ! ii > c) [0..<length ps])"
    by (rule map_cong) simp_all
  also have "\<dots> = map f (map (\<lambda>ii. ps ! ii) (filter (\<lambda>ii. map f ps ! ii > c) [0..<length ps]))"
    by (simp add: comp_def)
  finally show ?thesis by (simp only: far_enough_filter)
qed

lemma fast_method_positions:
  "fst (fast_method K aoi bins ps full) = filter (\<lambda>p. boundary_distance K aoi p > last bins) ps"
  by (simp add: fast_method_def Let_def far_enough_filter)

lemma accumulate_nil:
  "accumulate bins ra nm ps [] acc = Inr acc"
  by simp

lemma accumulate_unsorted:
  "\<not> sorted bins \<Longrightarrow> iis \<noteq> [] \<Longrightarrow> accumulate bins ra nm ps iis acc = Inl ValueError"
  by (cases iis) (simp_all add: np_histogram_def)

lemma accumulate_sorted:
  "sorted bins \<Longrightarrow> \<exists>raw nrm. accumulate bins ra nm ps iis acc = Inr (raw, nrm)"
proof (induction iis arbitrary: acc)
  case Nil
  then show ?case by (cases acc) simp
next
  case (Cons ii iis)
  then show ?case by (simp add: np_histogram_def)
qed

lemma pcf2d_locals_Inr:
  assumes "pcf2d_locals K positions bins border holes fast full = Inr s"
  shows "\<exists>aoi ps dens ra approx kept ds rows raw nrm.
    domain_stage K positions border holes = Inr (aoi, ps) \<and>
    density (length ps) (area K aoi) = Inr dens \<and>
    ring_stage K bins = Inr (ra, approx) \<and>
    normalisation_stage K aoi bins approx ps fast full = Inr (kept, ds, rows) \<and>
    accumulate bins ra rows kept [0..<length kept]
      (replicate (length bins - 1) (Fin 0), replicate (length bins - 1) (Fin 0)) = Inr (raw, nrm) \<and>
    s = \<lparr> g_of_r_normalized = map (\<lambda>h. np_div h (Fin (real (length kept) * dens))) nrm,
          radii = map2 (\<lambda>a b. (a + b) / 2) (tl bins) (butlast bins),
          g_of_r = map (\<lambda>h. np_div h (Fin (real (length kept)))) raw,
          array_positions = kept,
          dist_to_border = ds,
          normalisation = rows,
          densite = dens \<rparr>"
  using assms unfolding pcf2d_locals_def
  by (auto split: sum.splits prod.splits)


lemma normalisation_stage_fast:
  "normalisation_stage K aoi bins approx ps True full = Inr (kept, ds, rows) \<Longrightarrow>
   (kept, ds, rows) = fast_method K aoi bins ps full"
  by (simp add: normalisation_stage_def)

lemma normalisation_stage_accurate:
  assumes "bins \<noteq> []"
  shows "\<exists>rows. normalisation_stage K aoi bins approx ps False full
            = Inr (ps, map (boundary_distance K aoi) ps, rows) \<and>
           length rows = length ps \<and>
           (\<forall>i < length ps. length (rows ! i) = length bins - 1 \<and>
              (\<forall>j < length bins - 1. rows ! i ! j =
                (if boundary_distance K aoi (ps ! i) \<le> bins ! 0
                    \<or> bins ! (j + 1) > boundary_distance K aoi (ps ! i)
                 then factor K aoi bins approx (ps ! i) j else Fin 1)))"
  using accurate_method_total [OF assms, of K aoi approx ps]
  by (auto simp: normalisation_stage_def)

lemma ring_stage_Inr:
  "ring_stage K bins = Inr (ra, approx) \<Longrightarrow>
   bins \<noteq> [] \<and>
   ra = map (\<lambda>jj. pi * ((bins ! (jj + 1))\<^sup>2 - (bins ! jj)\<^sup>2)) [0..<length bins - 1] \<and>
   approx = map (\<lambda>jj. ring_area_poly K (bins ! jj) (bins ! (jj + 1))) [0..<length bins - 1]"
  by (auto simp: ring_stage_def split: if_splits)

lemma pcf2d_locals_returns:
  assumes d: "domain_stage K positions border holes = Inr (aoi, ps)"
      and a: "area K aoi \<noteq> 0" and b: "bins \<noteq> []" and s: "sorted bins"
  shows "\<exists>s. pcf2d_locals K positions bins border holes fast full = Inr s"
proof -
  obtain ra approx where rs: "ring_stage K bins = Inr (ra, approx)"
    using b by (simp add: ring_stage_def)
  obtain kept ds rows where
    ns: "normalisation_stage K aoi bins approx ps fast full = Inr (kept, ds, rows)"
  proof (cases fast)
    case True
    then show ?thesis using that
      by (cases "fast_method K aoi bins ps full") (auto simp: normalisation_stage_def)
  next
    case False
    then show ?thesis using that normalisation_stage_accurate [OF b, of K aoi approx ps full]
      by auto
  qed
  obtain raw nrm where
    "accumulate bins ra rows kept [0..<length kept]
       (replicate (length bins - 1) (Fin 0), replicate (length bins - 1) (Fin 0)) = Inr (raw, nrm)"
    using accumulate_sorted [OF s] by blast
  then show ?thesis
    using d a rs ns by (simp add: pcf2d_locals_def density_def)
qed

lemma sorted_le_last: "sorted bins \<Longrightarrow> k < length bins \<Longrightarrow> bins ! k \<le> last bins"
  by (cases "bins = []") (simp_all add: last_conv_nth sorted_nth_mono)

lemma fast_method_all_far:
  assumes "\<forall>p \<in> set ps. boundary_distance K aoi p > last bins"
  shows "fast_method K aoi bins ps full =
           (ps, map (boundary_distance K aoi) ps,
            replicate (length ps) (replicate (length bins - 1) (Fin 1)))"
proof -
  have "filter (\<lambda>p. boundary_distance K aoi p > last bins) ps = ps"
    using assms by simp
  then show ?thesis
    by (simp add: fast_method_def Let_def far_enough_filter far_enough_distances)
qed

lemma accurate_all_far:
  assumes b: "bins \<noteq> []" and s: "sorted bins"
      and far: "\<forall>p \<in> set ps. boundary_distance K aoi p > last bins"
  shows "normalisation_stage K aoi bins approx ps False full =
           Inr (ps, map (boundary_distance K aoi) ps,
                replicate (length ps) (replicate (length bins - 1) (Fin 1)))"
proof -
  from normalisation_stage_accurate [OF b, of K aoi approx ps full] obtain rows where
    ns: "normalisation_stage K aoi bins approx ps False full
           = Inr (ps, map (boundary_distance K aoi) ps, rows)" and
    len: "length rows = length ps" and
    rows: "\<forall>i < length ps. length (rows ! i) = length bins - 1 \<and>
              (\<forall>j < length bins - 1. rows ! i ! j =
                (if boundary_distance K aoi (ps ! i) \<le> bins ! 0
                    \<or> bins ! (j + 1) > boundary_distance K aoi (ps ! i)
                 then factor K aoi bins approx (ps ! i) j else Fin 1))"
    by blast
  have row: "rows ! i = replicate (length bins - 1) (Fin 1)" if i: "i < length ps" for i
  proof (rule nth_equalityI)
    show "length (rows ! i) = length (replicate (length bins - 1) (Fin 1))"
      using rows i by simp
  next
    fix j assume "j < length (rows ! i)"
    then have j: "j < length bins - 1" using rows i by simp
    have d: "boundary_distance K aoi (ps ! i) > last bins" using far i by simp
    have "bins ! 0 \<le> last bins" using sorted_le_last [OF s, of 0] b by simp
    moreover have "bins ! (j + 1) \<le> last bins" using sorted_le_last [OF s, of "j + 1"] j by simp
    ultimately have "rows ! i ! j = Fin 1" using rows i j d by simp
    then show "rows ! i ! j = replicate (length bins - 1) (Fin 1) ! j" using j by simp
  qed
  have "rows = replicate (length ps) (replicate (length bins - 1) (Fin 1))"
    by (rule nth_equalityI) (simp_all add: len row)
  then show ?thesis using ns by simp
qed

subsection \<open>The square, evaluated\<close>

lemma square_kernel_answers:
  "is_valid square_kernel d = (d = square4)"
  "area square_kernel square4 = 16"
  "area square_kernel (ConvexHull (q # qs)) = 16"
  "area square_kernel (ConvexHull []) = 0"
  "points_inside square_kernel d ps =
     (case filter in_square4 ps of
        [] \<Rightarrow> PointEmpty | [p] \<Rightarrow> Point p | qs \<Rightarrow> MultiPoint qs)"
  "boundary_distance square_kernel d p = side_distance4 p"
  "ring_area_poly square_kernel = ring64"
  "clipped_ring_area square_kernel d r0 r1 p =
     (if r1 \<le> side_distance4 p then ring64 r0 r1
      else if fst p = 0 \<and> r1 \<le> min (snd p) (4 - snd p) then ring64 r0 r1 / 2
      else if 8 \<le> r0 then 0
      else undefined)"
  by (simp_all add: square_kernel_def square4_def)

lemma sin_pi_32: "0 < sin (pi / 32)"
  by (rule sin_gt_zero) simp_all

lemma sin_pi_32_neq: "sin (pi / 32) \<noteq> 0"
  using sin_pi_32 by simp

lemma ring64_values:
  "ring64 0 1 = 32 * sin (pi / 32)" "ring64 1 2 = 96 * sin (pi / 32)"
  "ring64 0 1 \<noteq> 0" "ring64 1 2 \<noteq> 0"
  using sin_pi_32 by (simp_all add: ring64_def)

text \<open>The points \<open>(1,2)\<close> and \<open>(2,2)\<close> in the square, with the bin edges \<open>[0, 1]\<close>.\<close>

lemma domain_A:
  "domain_stage square_kernel [(1, 2), (2, 2)] (Some [(0, 0), (0, 4), (4, 4), (4, 0)]) None
   = Inr (square4, [(1, 2), (2, 2)])"
  by (simp add: domain_stage_def square_kernel_answers square4_def in_square4_def)

lemma ring_A: "ring_stage square_kernel [0, 1] = Inr ([pi], [ring64 0 1])"
  by (simp add: ring_stage_def square_kernel_answers)

lemma fast_A:
  "normalisation_stage square_kernel square4 [0, 1] approx [(1, 2), (2, 2)] True full
   = Inr ([(2, 2)], if full then [2] else [1, 2], if full then [[Fin 1]] else [[Fin 1], [Fin 1]])"
  by (simp add: normalisation_stage_def fast_method_def square_kernel_answers side_distance4_def Let_def)

lemma accurate_A:
  "normalisation_stage square_kernel square4 [0, 1] approx [(1, 2), (2, 2)] False full
   = Inr ([(1, 2), (2, 2)], [1, 2], [[Fin 1], [Fin 1]])"
  by (simp add: normalisation_stage_def normalisation_row_def square_kernel_answers side_distance4_def Let_def)

lemma histogram_A:
  "np_histogram (dist_to_loc [(1, 2), (2, 2)] 0) [0, 1] = Inr [1]"
  "np_histogram (dist_to_loc [(1, 2), (2, 2)] (Suc 0)) [0, 1] = Inr [1]"
  "np_histogram (dist_to_loc [(2, 2)] 0) [0, 1] = Inr [0]"
  by (simp_all add: dist_to_loc_def np_histogram_def in_bin_def)

lemma locals_fast_A:
  "pcf2d_locals square_kernel [(1, 2), (2, 2)] [0, 1] (Some [(0, 0), (0, 4), (4, 4), (4, 0)]) None True True
   = Inr \<lparr> g_of_r_normalized = [Fin 0], radii = [1 / 2], g_of_r = [Fin 0],
           array_positions = [(2, 2)], dist_to_border = [2], normalisation = [[Fin 1]],
           densite = 1 / 8 \<rparr>"
  by (simp add: pcf2d_locals_def domain_A density_def ring_A fast_A histogram_A square_kernel_answers)

lemma locals_accurate_A:
  "pcf2d_locals square_kernel [(1, 2), (2, 2)] [0, 1] (Some [(0, 0), (0, 4), (4, 4), (4, 0)]) None False True
   = Inr \<lparr> g_of_r_normalized = [Fin (8 / pi)], radii = [1 / 2], g_of_r = [Fin 1],
           array_positions = [(1, 2), (2, 2)], dist_to_border = [1, 2],
           normalisation = [[Fin 1], [Fin 1]], densite = 1 / 8 \<rparr>"
  by (simp add: pcf2d_locals_def domain_A density_def ring_A accurate_A histogram_A square_kernel_answers)

lemma pcf2d_fast_A:
  "pcf2d square_kernel [(1, 2), (2, 2)] [0, 1] (Some [(0, 0), (0, 4), (4, 4), (4, 0)]) None True False
   = Inr (Minimal [Fin 0] [1 / 2])"
  by (simp add: pcf2d_def pcf2d_locals_def domain_A density_def ring_A fast_A histogram_A square_kernel_answers)

lemma pcf2d_accurate_A:
  "pcf2d square_kernel [(1, 2), (2, 2)] [0, 1] (Some [(0, 0), (0, 4), (4, 4), (4, 0)]) None False False
   = Inr (Minimal [Fin (8 / pi)] [1 / 2])"
  by (simp add: pcf2d_def pcf2d_locals_def domain_A density_def ring_A accurate_A histogram_A square_kernel_answers)

text \<open>The points \<open>(0,2)\<close> and \<open>(2,2)\<close> in the square, with the bin edges \<open>[0, 1, 2]\<close>.\<close>

lemma domain_B:
  "domain_stage square_kernel [(0, 2), (2, 2)] (Some [(0, 0), (0, 4), (4, 4), (4, 0)]) None
   = Inr (square4, [(0, 2), (2, 2)])"
  by (simp add: domain_stage_def square_kernel_answers square4_def in_square4_def)

lemma ring_B: "ring_stage square_kernel [0, 1, 2] = Inr ([pi, 3 * pi], [ring64 0 1, ring64 1 2])"
  by (simp add: ring_stage_def square_kernel_answers upt_rec)

lemma accurate_B:
  "normalisation_stage square_kernel square4 [0, 1, 2] [ring64 0 1, ring64 1 2] [(0, 2), (2, 2)] False full
   = Inr ([(0, 2), (2, 2)], [0, 2], [[Fin (1 / 2), Fin (1 / 2)], [Fin 1, Fin 1]])"
  by (simp add: normalisation_stage_def normalisation_row_def factor_def py_index_def
        square_kernel_answers side_distance4_def Let_def ring64_values sin_pi_32_neq upt_rec)

lemma histogram_B:
  "np_histogram (dist_to_loc [(0, 2), (2, 2)] 0) [0, 1, 2] = Inr [0, 1]"
  "np_histogram (dist_to_loc [(0, 2), (2, 2)] (Suc 0)) [0, 1, 2] = Inr [0, 1]"
  by (simp_all add: dist_to_loc_def np_histogram_def in_bin_def upt_rec)

lemma locals_accurate_B:
  "pcf2d_locals square_kernel [(0, 2), (2, 2)] [0, 1, 2] (Some [(0, 0), (0, 4), (4, 4), (4, 0)]) None False True
   = Inr \<lparr> g_of_r_normalized = [Fin 0, Fin (4 / pi)], radii = [1 / 2, 3 / 2], g_of_r = [Fin 0, Fin 1],
           array_positions = [(0, 2), (2, 2)], dist_to_border = [0, 2],
           normalisation = [[Fin (1 / 2), Fin (1 / 2)], [Fin 1, Fin 1]], densite = 1 / 8 \<rparr>"
  by (simp add: pcf2d_locals_def domain_B density_def ring_B accurate_B histogram_B square_kernel_answers upt_rec)

text \<open>The four corners with no border, and the descending bin edges \<open>[1, 0]\<close>.\<close>

lemma domain_corners:
  "domain_stage square_kernel [(0, 0), (0, 4), (4, 4), (4, 0)] None None
     = Inr (ConvexHull [(0, 0), (0, 4), (4, 4), (4, 0)], [(0, 0), (0, 4), (4, 4), (4, 0)])"
  by (simp add: domain_stage_def)

lemma ring_descending: "ring_stage square_kernel [1, 0] = Inr ([- pi], [ring64 1 0])"
  by (simp add: ring_stage_def square_kernel_answers)

lemma fast_corners:
  "normalisation_stage square_kernel d [1, 0] approx [(0, 0), (0, 4), (4, 4), (4, 0)] True False
     = Inr ([], [0, 0, 0, 0], [[Fin 1], [Fin 1], [Fin 1], [Fin 1]])"
  by (simp add: normalisation_stage_def fast_method_def square_kernel_answers side_distance4_def
        Let_def)

text \<open>The same two points with the bin edges \<open>[8, 9]\<close>, and with the equal edges \<open>[1, 1]\<close>.\<close>

lemma ring64_8_9: "ring64 8 9 = 544 * sin (pi / 32)" "ring64 1 1 = 0"
  by (simp_all add: ring64_def)

lemma ring_far: "ring_stage square_kernel [8, 9] = Inr ([17 * pi], [ring64 8 9])"
  by (simp add: ring_stage_def square_kernel_answers)

lemma accurate_far:
  "normalisation_stage square_kernel square4 [8, 9] [ring64 8 9] [(1, 2), (2, 2)] False full
   = Inr ([(1, 2), (2, 2)], [1, 2], [[Fin 0], [Fin 0]])"
  by (simp add: normalisation_stage_def normalisation_row_def factor_def py_index_def
        square_kernel_answers side_distance4_def Let_def ring64_8_9 sin_pi_32_neq)

lemma histogram_far:
  "np_histogram (dist_to_loc [(1, 2), (2, 2)] 0) [8, 9] = Inr [0]"
  "np_histogram (dist_to_loc [(1, 2), (2, 2)] (Suc 0)) [8, 9] = Inr [0]"
  by (simp_all add: dist_to_loc_def np_histogram_def in_bin_def)

lemma locals_accurate_far:
  "pcf2d_locals square_kernel [(1, 2), (2, 2)] [8, 9] (Some [(0, 0), (0, 4), (4, 4), (4, 0)]) None False True
   = Inr \<lparr> g_of_r_normalized = [NaN], radii = [17 / 2], g_of_r = [Fin 0],
           array_positions = [(1, 2), (2, 2)], dist_to_border = [1, 2],
           normalisation = [[Fin 0], [Fin 0]], densite = 1 / 8 \<rparr>"
  by (simp add: pcf2d_locals_def domain_A density_def ring_far accurate_far histogram_far
        square_kernel_answers)

lemma ring_equal: "ring_stage square_kernel [1, 1] = Inr ([0], [ring64 1 1])"
  by (simp add: ring_stage_def square_kernel_answers)

lemma accurate_equal:
  "normalisation_stage square_kernel square4 [1, 1] [ring64 1 1] [(1, 2), (2, 2)] False full
   = Inr ([(1, 2), (2, 2)], [1, 2], [[NaN], [Fin 1]])"
  by (simp add: normalisation_stage_def normalisation_row_def factor_def py_index_def
        square_kernel_answers side_distance4_def Let_def ring64_8_9)

lemma histogram_equal:
  "np_histogram (dist_to_loc [(1, 2), (2, 2)] 0) [1, 1] = Inr [1]"
  "np_histogram (dist_to_loc [(1, 2), (2, 2)] (Suc 0)) [1, 1] = Inr [1]"
  by (simp_all add: dist_to_loc_def np_histogram_def in_bin_def)

lemma locals_accurate_equal:
  "pcf2d_locals square_kernel [(1, 2), (2, 2)] [1, 1] (Some [(0, 0), (0, 4), (4, 4), (4, 0)]) None False True
   = Inr \<lparr> g_of_r_normalized = [NaN], radii = [1], g_of_r = [Fin 1],
           array_positions = [(1, 2), (2, 2)], dist_to_border = [1, 2],
           normalisation = [[NaN], [Fin 1]], densite = 1 / 8 \<rparr>"
  by (simp add: pcf2d_locals_def domain_A density_def ring_equal accurate_equal histogram_equal
        square_kernel_answers)



subsection \<open>Invalid border\<close>

text \<open>
  C5. When a border is supplied and the polygon built from it (and from the holes, if
  any) is not valid, the call ends at once with the validation message and without a
  result, whatever the points, the bin edges and the flags are: nothing else is computed.
\<close>

theorem invalid_border_aborts:
  "\<not> is_valid K (Polygon border holes) \<Longrightarrow>
   pcf2d K positions bins (Some border) holes fast full = Inl InvalidBorder"
  by (simp add: pcf2d_def pcf2d_locals_def domain_stage_def)

theorem invalid_border_aborts_witness:
  "\<not> is_valid square_kernel (Polygon [(0, 0), (0, 1), (1, 0), (1, 1)] None) \<and>
   pcf2d square_kernel [(1/2, 1/4)] [0, 1] (Some [(0, 0), (0, 1), (1, 0), (1, 1)]) None False False
     = Inl InvalidBorder"
proof -
  have h: "\<not> is_valid square_kernel (Polygon [(0, 0), (0, 1), (1, 0), (1, 1)] None)"
    by (simp add: square_kernel_def square4_def)
  show ?thesis using h invalid_border_aborts [OF h] by simp
qed

subsection \<open>A single point inside the border\<close>

text \<open>
  C10. When a border is supplied, the polygon is valid and its intersection with the
  input points is a single \<open>Point\<close> (exactly one input point lies inside), reading
  \<open>.geoms\<close> raises \<open>AttributeError\<close>: the call fails instead of returning
  \<open>(g(r), r)\<close>.
\<close>

theorem single_interior_point_fails:
  "is_valid K (Polygon border holes) \<Longrightarrow>
   points_inside K (Polygon border holes) positions = Point p \<Longrightarrow>
   pcf2d K positions bins (Some border) holes fast full = Inl AttributeError"
  by (simp add: pcf2d_def pcf2d_locals_def domain_stage_def)

theorem single_interior_point_fails_witness:
  "is_valid square_kernel (Polygon [(0, 0), (0, 4), (4, 4), (4, 0)] None) \<and>
   points_inside square_kernel (Polygon [(0, 0), (0, 4), (4, 4), (4, 0)] None) [(2, 2), (5, 5)]
     = Point (2, 2) \<and>
   pcf2d square_kernel [(2, 2), (5, 5)] [0, 1] (Some [(0, 0), (0, 4), (4, 4), (4, 0)]) None False False
     = Inl AttributeError"
proof -
  have v: "is_valid square_kernel (Polygon [(0, 0), (0, 4), (4, 4), (4, 0)] None)"
    by (simp add: square_kernel_def square4_def)
  have s: "points_inside square_kernel (Polygon [(0, 0), (0, 4), (4, 4), (4, 0)] None)
             [(2, 2), (5, 5)] = Point (2, 2)"
    by (simp add: square_kernel_def in_square4_def)
  show ?thesis using v s single_interior_point_fails [OF v s] by simp
qed

subsection \<open>The self-distance\<close>





subsection \<open>The accurate method\<close>

text \<open>
  C1. In accurate mode, for the retained point \<open>i\<close> with boundary distance \<open>d\<close> and for
  every bin \<open>j\<close>: if \<open>d \<le> bins_distances[0]\<close> the factor is the area of the
  intersection of the area of interest with ring \<open>j\<close> translated to the point, divided by
  the polygonal area of the ring; otherwise it is that quotient exactly when
  \<open>bins_distances[j+1] > d\<close>, and 1 for all other bins.
\<close>

theorem accurate_mode_factors:
  assumes d: "domain_stage K positions border holes = Inr (aoi, ps)"
      and r: "pcf2d_locals K positions bins border holes False full = Inr s"
      and i: "i < length ps" and j: "j < length bins - 1"
  shows "dist_to_border s ! i = boundary_distance K aoi (ps ! i) \<and>
         normalisation s ! i ! j =
           (if boundary_distance K aoi (ps ! i) \<le> bins ! 0
            then np_div (Fin (clipped_ring_area K aoi (bins ! j) (bins ! (j + 1)) (ps ! i)))
                        (Fin (ring_area_poly K (bins ! j) (bins ! (j + 1))))
            else if bins ! (j + 1) > boundary_distance K aoi (ps ! i)
            then np_div (Fin (clipped_ring_area K aoi (bins ! j) (bins ! (j + 1)) (ps ! i)))
                        (Fin (ring_area_poly K (bins ! j) (bins ! (j + 1))))
            else Fin 1)"
proof -
  from pcf2d_locals_Inr [OF r] d obtain dens ra approx kept ds rows raw nrm where
    rs: "ring_stage K bins = Inr (ra, approx)" and
    ns: "normalisation_stage K aoi bins approx ps False full = Inr (kept, ds, rows)" and
    s: "dist_to_border s = ds" "normalisation s = rows"
    by auto
  from ring_stage_Inr [OF rs] have b: "bins \<noteq> []" and
    ap: "approx = map (\<lambda>jj. ring_area_poly K (bins ! jj) (bins ! (jj + 1))) [0..<length bins - 1]"
    by simp_all
  from normalisation_stage_accurate [OF b, of K aoi approx ps full] ns
  have ds: "ds = map (boundary_distance K aoi) ps" and
    rows: "\<forall>i < length ps. length (rows ! i) = length bins - 1 \<and>
              (\<forall>j < length bins - 1. rows ! i ! j =
                (if boundary_distance K aoi (ps ! i) \<le> bins ! 0
                    \<or> bins ! (j + 1) > boundary_distance K aoi (ps ! i)
                 then factor K aoi bins approx (ps ! i) j else Fin 1))"
    by auto
  have f: "factor K aoi bins approx (ps ! i) j =
           np_div (Fin (clipped_ring_area K aoi (bins ! j) (bins ! (j + 1)) (ps ! i)))
                  (Fin (ring_area_poly K (bins ! j) (bins ! (j + 1))))"
    using j by (simp add: factor_def ap)
  show ?thesis using s ds rows i j f by simp
qed

theorem accurate_mode_factors_witness:
  "domain_stage square_kernel [(0, 2), (2, 2)] (Some [(0, 0), (0, 4), (4, 4), (4, 0)]) None
     = Inr (square4, [(0, 2), (2, 2)]) \<and>
   (\<exists>s. pcf2d_locals square_kernel [(0, 2), (2, 2)] [0, 1, 2]
          (Some [(0, 0), (0, 4), (4, 4), (4, 0)]) None False True = Inr s \<and>
        dist_to_border s = [0, 2] \<and>
        normalisation s ! 0 ! 1 = Fin (1 / 2) \<and> normalisation s ! 1 ! 1 = Fin 1)"
proof -
  have i0: "0 < length [(0, 2), (2, 2) :: point]" and i1: "1 < length [(0, 2), (2, 2) :: point]"
    and j: "1 < length [0, 1, 2 :: real] - 1"
    by simp_all
  note a = accurate_mode_factors [OF domain_B locals_accurate_B i0 j]
  note b = accurate_mode_factors [OF domain_B locals_accurate_B i1 j]
  show ?thesis
    using a b domain_B locals_accurate_B by simp
qed

subsection \<open>The fast method\<close>

text \<open>
  C3. In fast mode the points that remain are those whose boundary distance is greater
  than the last bin edge: every point at distance at most \<open>bins_distances[-1]\<close> is gone
  before the histogram loop, which runs over the remaining points only, and each
  remaining point has the factor 1 in every bin.
\<close>

theorem fast_mode_exclusion:
  assumes d: "domain_stage K positions border holes = Inr (aoi, ps)"
      and r: "pcf2d_locals K positions bins border holes True full = Inr s"
  shows "array_positions s = filter (\<lambda>p. boundary_distance K aoi p > last bins) ps \<and>
         (\<forall>p \<in> set ps. boundary_distance K aoi p \<le> last bins \<longrightarrow> p \<notin> set (array_positions s)) \<and>
         (\<forall>i < length (array_positions s). \<forall>j < length bins - 1.
            normalisation s ! i ! j = Fin 1) \<and>
         (\<exists>raw nrm.
            accumulate bins
              (map (\<lambda>jj. pi * ((bins ! (jj + 1))\<^sup>2 - (bins ! jj)\<^sup>2)) [0..<length bins - 1])
              (normalisation s) (array_positions s) [0..<length (array_positions s)]
              (replicate (length bins - 1) (Fin 0), replicate (length bins - 1) (Fin 0))
              = Inr (raw, nrm) \<and>
            g_of_r s = map (\<lambda>h. np_div h (Fin (real (length (array_positions s))))) raw)"
proof -
  from pcf2d_locals_Inr [OF r] d obtain dens ra approx kept ds rows raw nrm where
    rs: "ring_stage K bins = Inr (ra, approx)" and
    ns: "normalisation_stage K aoi bins approx ps True full = Inr (kept, ds, rows)" and
    ac: "accumulate bins ra rows kept [0..<length kept]
          (replicate (length bins - 1) (Fin 0), replicate (length bins - 1) (Fin 0)) = Inr (raw, nrm)" and
    s: "array_positions s = kept" "normalisation s = rows"
       "g_of_r s = map (\<lambda>h. np_div h (Fin (real (length kept)))) raw"
    by auto
  have fm: "(kept, ds, rows) = fast_method K aoi bins ps full"
    using normalisation_stage_fast [OF ns] .
  have kept: "kept = filter (\<lambda>p. boundary_distance K aoi p > last bins) ps"
    using fast_method_positions [of K aoi bins ps full] fm [symmetric] by simp
  have len: "length kept \<le> length ps" unfolding kept by simp
  have rows: "rows = replicate (if full then length kept else length ps)
                       (replicate (length bins - 1) (Fin 1))"
    using fm kept by (auto simp: fast_method_def Let_def far_enough_filter split: if_splits)
  have ones: "\<forall>i < length kept. \<forall>j < length bins - 1. rows ! i ! j = Fin 1"
    using len by (simp add: rows)
  have ra: "ra = map (\<lambda>jj. pi * ((bins ! (jj + 1))\<^sup>2 - (bins ! jj)\<^sup>2)) [0..<length bins - 1]"
    using ring_stage_Inr [OF rs] by simp
  have excl: "\<forall>p \<in> set ps. boundary_distance K aoi p \<le> last bins \<longrightarrow> p \<notin> set kept"
    unfolding kept by auto
  show ?thesis
    unfolding s using kept excl ones ac ra by blast
qed

theorem fast_mode_exclusion_witness:
  "domain_stage square_kernel [(1, 2), (2, 2)] (Some [(0, 0), (0, 4), (4, 4), (4, 0)]) None
     = Inr (square4, [(1, 2), (2, 2)]) \<and>
   (\<exists>s. pcf2d_locals square_kernel [(1, 2), (2, 2)] [0, 1]
          (Some [(0, 0), (0, 4), (4, 4), (4, 0)]) None True True = Inr s \<and>
        array_positions s = [(2, 2)] \<and>
        array_positions s =
          filter (\<lambda>p. boundary_distance square_kernel square4 p > last [0, 1]) [(1, 2), (2, 2)] \<and>
        normalisation s = [[Fin 1]])"
  using fast_mode_exclusion [OF domain_A locals_fast_A] domain_A locals_fast_A
  by simp

subsection \<open>Density and the final division\<close>

text \<open>
  C4. The density is the number of points inside the area of interest divided by its
  area, computed before the fast method removes any point; the final division of the
  normalised histogram is by the number of points that remain after the removal times
  that density.
\<close>

theorem density_and_final_division:
  assumes d: "domain_stage K positions border holes = Inr (aoi, ps)"
      and r: "pcf2d_locals K positions bins border holes fast full = Inr s"
  shows "densite s = real (length ps) / area K aoi \<and>
         array_positions s =
           (if fast then filter (\<lambda>p. boundary_distance K aoi p > last bins) ps else ps) \<and>
         (\<exists>raw nrm.
            accumulate bins
              (map (\<lambda>jj. pi * ((bins ! (jj + 1))\<^sup>2 - (bins ! jj)\<^sup>2)) [0..<length bins - 1])
              (normalisation s) (array_positions s) [0..<length (array_positions s)]
              (replicate (length bins - 1) (Fin 0), replicate (length bins - 1) (Fin 0))
              = Inr (raw, nrm) \<and>
            g_of_r_normalized s =
              map (\<lambda>h. np_div h (Fin (real (length (array_positions s)) * densite s))) nrm)"
proof -
  from pcf2d_locals_Inr [OF r] d obtain dens ra approx kept ds rows raw nrm where
    dn: "density (length ps) (area K aoi) = Inr dens" and
    rs: "ring_stage K bins = Inr (ra, approx)" and
    ns: "normalisation_stage K aoi bins approx ps fast full = Inr (kept, ds, rows)" and
    ac: "accumulate bins ra rows kept [0..<length kept]
          (replicate (length bins - 1) (Fin 0), replicate (length bins - 1) (Fin 0)) = Inr (raw, nrm)" and
    s: "array_positions s = kept" "normalisation s = rows" "densite s = dens"
       "g_of_r_normalized s = map (\<lambda>h. np_div h (Fin (real (length kept) * dens))) nrm"
    by auto
  have dens: "dens = real (length ps) / area K aoi"
    using dn by (auto simp: density_def split: if_splits)
  have b: "bins \<noteq> []" and
    ra: "ra = map (\<lambda>jj. pi * ((bins ! (jj + 1))\<^sup>2 - (bins ! jj)\<^sup>2)) [0..<length bins - 1]"
    using ring_stage_Inr [OF rs] by simp_all
  have kept: "kept = (if fast then filter (\<lambda>p. boundary_distance K aoi p > last bins) ps else ps)"
  proof (cases fast)
    case True
    then have "fast_method K aoi bins ps full = (kept, ds, rows)"
      using ns normalisation_stage_fast [of K aoi bins approx ps full kept ds rows] by simp
    then have "fst (fast_method K aoi bins ps full) = kept" by simp
    then show ?thesis
      using fast_method_positions [of K aoi bins ps full] True by simp
  next
    case False
    then show ?thesis
      using ns normalisation_stage_accurate [OF b, of K aoi approx ps full] by auto
  qed
  show ?thesis
    unfolding s using dens kept ac ra by blast
qed

theorem density_and_final_division_witness:
  "domain_stage square_kernel [(1, 2), (2, 2)] (Some [(0, 0), (0, 4), (4, 4), (4, 0)]) None
     = Inr (square4, [(1, 2), (2, 2)]) \<and>
   (\<exists>s. pcf2d_locals square_kernel [(1, 2), (2, 2)] [0, 1]
          (Some [(0, 0), (0, 4), (4, 4), (4, 0)]) None True True = Inr s \<and>
        densite s = real (length [(1, 2), (2, 2) :: point]) / area square_kernel square4 \<and>
        densite s = 1 / 8 \<and> array_positions s = [(2, 2)] \<and>
        g_of_r_normalized s = [Fin 0])"
  using density_and_final_division [OF domain_A locals_fast_A] domain_A locals_fast_A
  by simp

subsection \<open>No point left\<close>




subsection \<open>Fast and accurate method on points far from the boundary\<close>

text \<open>
  C6 (amended). When every retained point lies farther from the boundary than the last
  bin edge (strictly: the fast method keeps a point only if its distance is greater than
  \<open>bins_distances[-1]\<close>), the call with \<open>fast_method\<close> true and the call with
  \<open>fast_method\<close> false end the same way: the same outputs, or the same failure.
\<close>

theorem modes_agree_when_all_far:
  assumes d: "domain_stage K positions border holes = Inr (aoi, ps)"
      and far: "\<forall>p \<in> set ps. boundary_distance K aoi p > last bins"
  shows "pcf2d K positions bins border holes True full = pcf2d K positions bins border holes False full"
proof -
  have fm: "normalisation_stage K aoi bins approx ps True full =
             Inr (ps, map (boundary_distance K aoi) ps,
                  replicate (length ps) (replicate (length bins - 1) (Fin 1)))" for approx
    by (simp add: normalisation_stage_def fast_method_all_far [OF far])
  have "pcf2d_locals K positions bins border holes True full
      = pcf2d_locals K positions bins border holes False full"
  proof (cases "bins = []")
    case True
    then show ?thesis
      by (simp add: pcf2d_locals_def d ring_stage_def split: sum.splits)
  next
    case b: False
    obtain ra approx where rs: "ring_stage K bins = Inr (ra, approx)"
      using b by (simp add: ring_stage_def)
    show ?thesis
    proof (cases "sorted bins")
      case True
      show ?thesis
        by (simp add: pcf2d_locals_def d rs fm accurate_all_far [OF b True far] split: sum.splits)
    next
      case unsorted: False
      show ?thesis
      proof (cases "ps = []")
        case True
        then have "normalisation_stage K aoi bins approx ps False full =
             Inr (ps, map (boundary_distance K aoi) ps,
                  replicate (length ps) (replicate (length bins - 1) (Fin 1)))"
          by (simp add: normalisation_stage_def)
        then show ?thesis
          by (simp add: pcf2d_locals_def d rs fm split: sum.splits)
      next
        case False
        from normalisation_stage_accurate [OF b, of K aoi _ ps full]
        have acc: "\<exists>rows. normalisation_stage K aoi bins approx ps False full
                     = Inr (ps, map (boundary_distance K aoi) ps, rows)" for approx
          by blast
        have ne: "[0..<length ps] \<noteq> []" using False by simp
        have "pcf2d_locals K positions bins border holes fast full =
              (case density (length ps) (area K aoi) of Inl e \<Rightarrow> Inl e | Inr dens \<Rightarrow> Inl ValueError)"
          if "\<And>approx. \<exists>rows. normalisation_stage K aoi bins approx ps fast full
                     = Inr (ps, map (boundary_distance K aoi) ps, rows)" for fast
        proof -
          from that [of approx] obtain rows where
            "normalisation_stage K aoi bins approx ps fast full
               = Inr (ps, map (boundary_distance K aoi) ps, rows)" by blast
          then show ?thesis
            using rs accumulate_unsorted [OF unsorted ne]
            by (simp add: pcf2d_locals_def d split: sum.splits)
        qed
        from this [of True] this [of False] fm acc show ?thesis by simp
      qed
    qed
  qed
  then show ?thesis by (simp add: pcf2d_def)
qed

theorem modes_agree_when_all_far_witness:
  "domain_stage square_kernel [(1, 2), (2, 2)] (Some [(0, 0), (0, 4), (4, 4), (4, 0)]) None
     = Inr (square4, [(1, 2), (2, 2)]) \<and>
   boundary_distance square_kernel square4 (1, 2) > last [0, 1 / 2] \<and>
   boundary_distance square_kernel square4 (2, 2) > last [0, 1 / 2] \<and>
   pcf2d square_kernel [(1, 2), (2, 2)] [0, 1 / 2] (Some [(0, 0), (0, 4), (4, 4), (4, 0)]) None True False
     = pcf2d square_kernel [(1, 2), (2, 2)] [0, 1 / 2] (Some [(0, 0), (0, 4), (4, 4), (4, 0)]) None False False"
proof -
  have far: "\<forall>p \<in> set [(1, 2), (2, 2)].
               boundary_distance square_kernel square4 p > last [0, 1 / 2]"
    by (simp add: square_kernel_answers side_distance4_def)
  from modes_agree_when_all_far [OF domain_A far, of False]
  show ?thesis using domain_A far by simp
qed

text \<open>
  With "no closer than" in place of "farther than" the statement fails, at equality.
  In the square, with the bin edges \<open>[0, 1]\<close>, the point
  \<open>(1,2)\<close> lies at distance 1 from the boundary and \<open>(2,2)\<close> at distance 2: the
  accurate method keeps both points, the fast method drops the first, and \<open>g(r)\<close>
  differs.
\<close>

theorem modes_differ_at_last_edge:
  "domain_stage square_kernel [(1, 2), (2, 2)] (Some [(0, 0), (0, 4), (4, 4), (4, 0)]) None
     = Inr (square4, [(1, 2), (2, 2)]) \<and>
   boundary_distance square_kernel square4 (1, 2) = last [0, 1] \<and>
   boundary_distance square_kernel square4 (2, 2) = 2 \<and>
   pcf2d square_kernel [(1, 2), (2, 2)] [0, 1] (Some [(0, 0), (0, 4), (4, 4), (4, 0)]) None True False
     = Inr (Minimal [Fin 0] [1 / 2]) \<and>
   pcf2d square_kernel [(1, 2), (2, 2)] [0, 1] (Some [(0, 0), (0, 4), (4, 4), (4, 0)]) None False False
     = Inr (Minimal [Fin (8 / pi)] [1 / 2]) \<and>
   pcf2d square_kernel [(1, 2), (2, 2)] [0, 1] (Some [(0, 0), (0, 4), (4, 4), (4, 0)]) None True False
     \<noteq> pcf2d square_kernel [(1, 2), (2, 2)] [0, 1] (Some [(0, 0), (0, 4), (4, 4), (4, 0)]) None False False"
  by (simp add: domain_A pcf2d_fast_A pcf2d_accurate_A square_kernel_answers side_distance4_def)

subsection \<open>Ill-formed bin edges\<close>

text \<open>
  C9 (amended). The bin edges are never checked before the geometry work. The call
  rejects them, with \<open>ValueError\<close>, in two cases only, both after the area of interest
  has been built and validated, the points inside it collected and the density computed:
  when the sequence is empty (at the allocation of the ring arrays), and when an edge is
  greater than its successor and at least one point is left for the histogram loop (in
  \<open>np.histogram\<close>, on the first pass of that loop). A sequence of one edge, and a
  descending sequence with no point left, are accepted.
\<close>

theorem bin_edges_rejection:
  "pcf2d_locals K positions bins border holes fast full = Inl ValueError \<longleftrightarrow>
     (\<exists>aoi ps. domain_stage K positions border holes = Inr (aoi, ps) \<and> area K aoi \<noteq> 0 \<and>
        (bins = [] \<or>
         \<not> sorted bins \<and>
         (if fast then filter (\<lambda>p. boundary_distance K aoi p > last bins) ps else ps) \<noteq> []))"
proof (cases "domain_stage K positions border holes")
  case (Inl e)
  have "e \<noteq> ValueError"
    using Inl by (auto simp: domain_stage_def Let_def split: option.splits if_splits geometry.splits)
  then show ?thesis using Inl by (simp add: pcf2d_locals_def)
next
  case (Inr dp)
  obtain aoi ps where dp: "dp = (aoi, ps)" by (cases dp)
  have d: "domain_stage K positions border holes = Inr (aoi, ps)" using Inr dp by simp
  show ?thesis
  proof (cases "area K aoi = 0")
    case True
    then show ?thesis by (simp add: pcf2d_locals_def d density_def)
  next
    case a: False
    show ?thesis
    proof (cases "bins = []")
      case True
      then show ?thesis using a by (simp add: pcf2d_locals_def d density_def ring_stage_def)
    next
      case b: False
      obtain ra approx where rs: "ring_stage K bins = Inr (ra, approx)"
        using b by (simp add: ring_stage_def)
      let ?kept = "if fast then filter (\<lambda>p. boundary_distance K aoi p > last bins) ps else ps"
      have "\<exists>ds rows. normalisation_stage K aoi bins approx ps fast full = Inr (?kept, ds, rows)"
      proof (cases fast)
        case True
        have "fst (fast_method K aoi bins ps full) = ?kept"
          using fast_method_positions [of K aoi bins ps full] True by simp
        then show ?thesis using True
          by (cases "fast_method K aoi bins ps full") (simp add: normalisation_stage_def)
      next
        case False
        then show ?thesis using normalisation_stage_accurate [OF b, of K aoi approx ps full] by auto
      qed
      then obtain ds rows where
        ns: "normalisation_stage K aoi bins approx ps fast full = Inr (?kept, ds, rows)" by blast
      let ?acc = "accumulate bins ra rows ?kept [0..<length ?kept]
                    (replicate (length bins - 1) (Fin 0), replicate (length bins - 1) (Fin 0))"
      have run: "pcf2d_locals K positions bins border holes fast full = Inl ValueError
                 \<longleftrightarrow> ?acc = Inl ValueError"
        using a rs ns by (simp add: pcf2d_locals_def d density_def split: sum.splits prod.splits)
      have "?acc = Inl ValueError \<longleftrightarrow> \<not> sorted bins \<and> ?kept \<noteq> []"
      proof (cases "sorted bins")
        case True
        obtain raw nrm where "?acc = Inr (raw, nrm)"
          using accumulate_sorted [OF True] by blast
        then show ?thesis using True by simp
      next
        case False
        show ?thesis
        proof (cases "?kept = []")
          case True
          then show ?thesis by simp
        next
          case ne: False
          then have "[0..<length ?kept] \<noteq> []" by simp
          from accumulate_unsorted [OF False this] show ?thesis using False ne by simp
        qed
      qed
      then show ?thesis using run d a b by simp
    qed
  qed
qed

theorem bin_edges_rejection_witness:
  "\<not> sorted [1, 0 :: real] \<and>
   pcf2d_locals square_kernel [(1, 2), (2, 2)] [1, 0] (Some [(0, 0), (0, 4), (4, 4), (4, 0)]) None
     False False = Inl ValueError \<and>
   pcf2d_locals square_kernel [(1, 2), (2, 2)] [] (Some [(0, 0), (0, 4), (4, 4), (4, 0)]) None
     False False = Inl ValueError"
proof -
  have a: "area square_kernel square4 \<noteq> 0" by (simp add: square_kernel_answers)
  have u: "\<not> sorted [1, 0 :: real]" by simp
  have "pcf2d_locals square_kernel [(1, 2), (2, 2)] [1, 0] (Some [(0, 0), (0, 4), (4, 4), (4, 0)]) None
     False False = Inl ValueError"
    unfolding bin_edges_rejection using domain_A a u by simp
  moreover have "pcf2d_locals square_kernel [(1, 2), (2, 2)] [] (Some [(0, 0), (0, 4), (4, 4), (4, 0)]) None
     False False = Inl ValueError"
    unfolding bin_edges_rejection using domain_A a by simp
  ultimately show ?thesis using u by simp
qed

text \<open>
  Ill-formed edges are not always rejected: the descending edges \<open>[1, 0]\<close> are
  accepted when no point is left. The four corners of their own convex hull lie on its boundary; the
  fast method removes them all, and the call returns \<open>g(r) = [nan]\<close>.
\<close>

theorem descending_edges_accepted:
  "\<not> sorted [1, 0 :: real] \<and>
   pcf2d square_kernel [(0, 0), (0, 4), (4, 4), (4, 0)] [1, 0] None None True False
     = Inr (Minimal [NaN] [1 / 2])"
  by (simp add: pcf2d_def pcf2d_locals_def domain_corners density_def ring_descending fast_corners
        square_kernel_answers)

subsection \<open>The entries of the normalisation matrix\<close>

text \<open>
  C2 (amended). Every entry of the normalisation matrix that belongs to a remaining
  point is exactly 1 or the quotient of the area of the clipped ring by the polygonal area
  of the ring, and that quotient need not lie in \<open>(0, 1]\<close>. In fast mode the entry is 1
  and the point lies farther from the boundary than the last bin edge. In accurate mode
  the entry \<open>(i, j)\<close> is exactly 1 when the boundary distance \<open>d\<close> of point \<open>i\<close>
  satisfies \<open>d > bins_distances[0]\<close> and \<open>d \<ge> bins_distances[j+1]\<close> (equality
  included), and is the quotient otherwise.
\<close>

theorem normalisation_entries:
  assumes d: "domain_stage K positions border holes = Inr (aoi, ps)"
      and r: "pcf2d_locals K positions bins border holes fast full = Inr s"
      and i: "i < length (array_positions s)" and j: "j < length bins - 1"
  shows "if fast
         then normalisation s ! i ! j = Fin 1 \<and>
              boundary_distance K aoi (array_positions s ! i) > last bins
         else array_positions s = ps \<and>
              normalisation s ! i ! j =
                (if boundary_distance K aoi (ps ! i) > bins ! 0 \<and>
                    boundary_distance K aoi (ps ! i) \<ge> bins ! (j + 1)
                 then Fin 1
                 else np_div (Fin (clipped_ring_area K aoi (bins ! j) (bins ! (j + 1)) (ps ! i)))
                             (Fin (ring_area_poly K (bins ! j) (bins ! (j + 1)))))"
proof -
  from pcf2d_locals_Inr [OF r] d obtain ra approx kept ds rows where
    rs: "ring_stage K bins = Inr (ra, approx)" and
    ns: "normalisation_stage K aoi bins approx ps fast full = Inr (kept, ds, rows)" and
    s: "array_positions s = kept" "normalisation s = rows"
    by auto
  from ring_stage_Inr [OF rs] have b: "bins \<noteq> []" and
    ap: "approx = map (\<lambda>jj. ring_area_poly K (bins ! jj) (bins ! (jj + 1))) [0..<length bins - 1]"
    by simp_all
  show ?thesis
  proof (cases fast)
    case True
    have fm: "fast_method K aoi bins ps full = (kept, ds, rows)"
      using ns True normalisation_stage_fast [of K aoi bins approx ps full kept ds rows] by simp
    then have "fst (fast_method K aoi bins ps full) = kept" by simp
    then have kept: "kept = filter (\<lambda>p. boundary_distance K aoi p > last bins) ps"
      using fast_method_positions [of K aoi bins ps full] by simp
    have len: "length kept \<le> length ps" unfolding kept by simp
    have rows: "rows = replicate (if full then length kept else length ps)
                         (replicate (length bins - 1) (Fin 1))"
      using fm kept by (auto simp: fast_method_def Let_def far_enough_filter split: if_splits)
    have one: "rows ! i ! j = Fin 1"
      using i j len by (simp add: rows s)
    have "kept ! i \<in> set kept" using i s by simp
    then have "boundary_distance K aoi (kept ! i) > last bins" unfolding kept by simp
    then show ?thesis using True one s by simp
  next
    case False
    from normalisation_stage_accurate [OF b, of K aoi approx ps full] ns False
    have kept: "kept = ps" and
      rows: "\<forall>i < length ps. length (rows ! i) = length bins - 1 \<and>
                (\<forall>j < length bins - 1. rows ! i ! j =
                  (if boundary_distance K aoi (ps ! i) \<le> bins ! 0
                      \<or> bins ! (j + 1) > boundary_distance K aoi (ps ! i)
                   then factor K aoi bins approx (ps ! i) j else Fin 1))"
      by auto
    have ips: "i < length ps" using i s kept by simp
    have f: "factor K aoi bins approx (ps ! i) j =
             np_div (Fin (clipped_ring_area K aoi (bins ! j) (bins ! (j + 1)) (ps ! i)))
                    (Fin (ring_area_poly K (bins ! j) (bins ! (j + 1))))"
      using j by (simp add: factor_def ap)
    have e: "rows ! i ! j =
               (if boundary_distance K aoi (ps ! i) \<le> bins ! 0
                   \<or> bins ! (j + 1) > boundary_distance K aoi (ps ! i)
                then factor K aoi bins approx (ps ! i) j else Fin 1)"
      using rows ips j by simp
    show ?thesis
      using False e s kept unfolding f by (auto simp: not_le not_less)
  qed
qed

theorem normalisation_entries_witness:
  "domain_stage square_kernel [(0, 2), (2, 2)] (Some [(0, 0), (0, 4), (4, 4), (4, 0)]) None
     = Inr (square4, [(0, 2), (2, 2)]) \<and>
   (\<exists>s. pcf2d_locals square_kernel [(0, 2), (2, 2)] [0, 1, 2]
          (Some [(0, 0), (0, 4), (4, 4), (4, 0)]) None False True = Inr s \<and>
        0 < length (array_positions s) \<and> 1 < length [0, 1, 2 :: real] - 1 \<and>
        array_positions s = [(0, 2), (2, 2)] \<and>
        boundary_distance square_kernel square4 ([(0, 2), (2, 2)] ! 0) = 0 \<and>
        normalisation s ! 0 ! 1 = Fin (1 / 2)) \<and>
   domain_stage square_kernel [(1, 2), (2, 2)] (Some [(0, 0), (0, 4), (4, 4), (4, 0)]) None
     = Inr (square4, [(1, 2), (2, 2)]) \<and>
   (\<exists>s. pcf2d_locals square_kernel [(1, 2), (2, 2)] [0, 1]
          (Some [(0, 0), (0, 4), (4, 4), (4, 0)]) None True True = Inr s \<and>
        0 < length (array_positions s) \<and>
        normalisation s ! 0 ! 0 = Fin 1 \<and>
        boundary_distance square_kernel square4 (array_positions s ! 0) > last [0, 1])"
proof -
  have i: "0 < length (array_positions
             \<lparr> g_of_r_normalized = [Fin 0, Fin (4 / pi)], radii = [1 / 2, 3 / 2],
               g_of_r = [Fin 0, Fin 1], array_positions = [(0, 2), (2, 2)],
               dist_to_border = [0, 2],
               normalisation = [[Fin (1 / 2), Fin (1 / 2)], [Fin 1, Fin 1]], densite = 1 / 8 \<rparr>)"
    by simp
  have j: "1 < length [0, 1, 2 :: real] - 1" by simp
  have i': "0 < length (array_positions
             \<lparr> g_of_r_normalized = [Fin 0], radii = [1 / 2], g_of_r = [Fin 0],
               array_positions = [(2, 2)], dist_to_border = [2], normalisation = [[Fin 1]],
               densite = 1 / 8 \<rparr>)"
    by simp
  have j': "0 < length [0, 1 :: real] - 1" by simp
  note a = normalisation_entries [OF domain_B locals_accurate_B i j]
  note b = normalisation_entries [OF domain_A locals_fast_A i' j']
  show ?thesis
    using a b domain_A domain_B locals_accurate_B locals_fast_A
    by (simp add: square_kernel_answers side_distance4_def)
qed

text \<open>
  The bound \<open>(0, 1]\<close> and the strict comparison both fail in the square, for the points
  \<open>(1,2)\<close> and \<open>(2,2)\<close>. With the bin edges \<open>[8, 9]\<close> the ring around \<open>(1,2)\<close>
  misses the square and the entry is 0; with the equal edges \<open>[1, 1]\<close> the ring is empty
  and the entry is \<open>nan\<close>; with the edges \<open>[0, 1]\<close> the point \<open>(1,2)\<close> lies at
  distance 1 from the boundary, which does not exceed \<open>bins_distances[1] = 1\<close>, and
  its entry is exactly 1.
\<close>

theorem entries_outside_bound_and_one_at_equality:
  "(\<exists>s. pcf2d_locals square_kernel [(1, 2), (2, 2)] [8, 9]
          (Some [(0, 0), (0, 4), (4, 4), (4, 0)]) None False True = Inr s \<and>
        normalisation s ! 0 ! 0 = Fin 0) \<and>
   (\<exists>s. pcf2d_locals square_kernel [(1, 2), (2, 2)] [1, 1]
          (Some [(0, 0), (0, 4), (4, 4), (4, 0)]) None False True = Inr s \<and>
        normalisation s ! 0 ! 0 = NaN) \<and>
   (\<exists>s. pcf2d_locals square_kernel [(1, 2), (2, 2)] [0, 1]
          (Some [(0, 0), (0, 4), (4, 4), (4, 0)]) None False True = Inr s \<and>
        normalisation s ! 0 ! 0 = Fin 1 \<and>
        dist_to_border s ! 0 = 1 \<and>
        \<not> dist_to_border s ! 0 > [0, 1] ! (0 + 1))"
  by (simp add: locals_accurate_far locals_accurate_equal locals_accurate_A)

end
